theory Spec2Isabelle
  imports Complex_Main
begin

section \<open>pybit helpers: clock synchronisation, endpoint routing, small predicates\<close>

text \<open>
  A shallow embedding of \<^verbatim>\<open>pybit/_helpers.py\<close>. Each Python function keeps its name.
  Effects are explicit: the functions of the clock part take a \<open>world\<close> (the wall clock,
  the sessions' behaviour, the memo table of \<^verbatim>\<open>lru_cache\<close>, the log) and return
  it updated; an exception is the \<open>Inl\<close> of a sum.
\<close>

subsection \<open>Exceptions, sessions and the world\<close>

text \<open>
  An exception object is its class name and what \<^verbatim>\<open>str()\<close> gives for it. Every
  exception of the model belongs to a subclass of \<^verbatim>\<open>Exception\<close>, which is what
  \<^verbatim>\<open>except Exception\<close> catches; signals such as \<^verbatim>\<open>KeyboardInterrupt\<close> are not
  modelled.
\<close>

datatype exn = PyExn string string

definition Exception :: "string \<Rightarrow> exn" where
  "Exception m = PyExn ''Exception'' m"

fun str_exn :: "exn \<Rightarrow> string" where
  "str_exn (PyExn c m) = m"

text \<open>
  A session is known by its identity (the key \<^verbatim>\<open>lru_cache\<close> hashes). The response
  of \<^verbatim>\<open>session.get_server_time()\<close> carries \<^verbatim>\<open>retCode\<close>, \<^verbatim>\<open>retMsg\<close> and
  \<^verbatim>\<open>result.timeNano\<close>; \<open>timeNano\<close> is the integer that
  \<^verbatim>\<open>int(response['result']['timeNano'])\<close> evaluates to. A call that raises, or a
  response on which a subscript or \<^verbatim>\<open>int()\<close> raises, is the outcome \<open>Raises\<close>.
\<close>

type_synonym sid = nat

record response =
  retCode :: int
  retMsg :: string
  timeNano :: int

datatype outcome = Returns response | Raises exn

datatype event = Info string | Error string | Print string

text \<open>
  The world: \<open>clock w n\<close> is what the \<open>n\<close>-th call of \<^verbatim>\<open>time.time()\<close> returns
  (a float, idealised as a real number: rounding of binary64 is not modelled) and
  \<open>ticks\<close> counts the calls made; \<open>server w s n\<close> is the outcome of the \<open>n\<close>-th call
  of \<^verbatim>\<open>get_server_time()\<close> on session \<open>s\<close> and \<open>fetches w s\<close> counts those calls;
  \<open>cache\<close> is the memo table of \<^verbatim>\<open>lru_cache\<close>, most recently used entry first;
  \<open>logged\<close> collects the lines given to \<^verbatim>\<open>logging\<close> and \<^verbatim>\<open>print\<close>, newest first.
\<close>

record world =
  clock :: "nat \<Rightarrow> real"
  ticks :: nat
  server :: "sid \<Rightarrow> nat \<Rightarrow> outcome"
  fetches :: "sid \<Rightarrow> nat"
  cache :: "(sid \<times> int) list"
  logged :: "event list"

definition time_time :: "world \<Rightarrow> real \<times> world" where
  "time_time w = (clock w (ticks w), w\<lparr>ticks := Suc (ticks w)\<rparr>)"

definition get_server_time :: "sid \<Rightarrow> world \<Rightarrow> outcome \<times> world" where
  "get_server_time s w =
     (server w s (fetches w s), w\<lparr>fetches := (fetches w)(s := Suc (fetches w s))\<rparr>)"

definition emit :: "event \<Rightarrow> world \<Rightarrow> world" where
  "emit e w = w\<lparr>logged := e # logged w\<rparr>"

text \<open>\<^verbatim>\<open>int(x)\<close> of a float truncates towards zero.\<close>

definition py_int :: "real \<Rightarrow> int" where
  "py_int x = (if 0 \<le> x then \<lfloor>x\<rfloor> else \<lceil>x\<rceil>)"

text \<open>The decimal text of an integer, as an f-string renders it.\<close>

fun digits :: "nat \<Rightarrow> string" where
  "digits n =
     (if n < 10 then [char_of (48 + n)]
      else digits (n div 10) @ [char_of (48 + n mod 10)])"

declare digits.simps [simp del]

definition str_int :: "int \<Rightarrow> string" where
  "str_int i = (if i < 0 then CHR ''-'' # digits (nat (- i)) else digits (nat i))"

subsection \<open>get\_server\_time\_delay\<close>

text \<open>
  The body of the \<^verbatim>\<open>try\<close> block, lines 16 to 26: the fetch, the test of
  \<^verbatim>\<open>retCode\<close>, and either the delay or \<^verbatim>\<open>raise Exception(error_message)\<close>.
\<close>

definition retrieving :: string where
  "retrieving = ''Error retrieving Bybit server time: ''"

definition delay_try :: "sid \<Rightarrow> world \<Rightarrow> (exn + int) \<times> world" where
  "delay_try session w =
     (case get_server_time session w of
        (Raises e, w1) \<Rightarrow> (Inl e, w1)
      | (Returns response, w1) \<Rightarrow>
          if retCode response = 0 then
            (let server_time_nano = timeNano response;
                 (t, w2) = time_time w1;
                 system_time_nano = py_int (t * 1000000000);
                 delay = server_time_nano - system_time_nano
             in (Inr delay,
                 emit (Info (''Calculated delay: '' @ str_int delay @ '' nanoseconds'')) w2))
          else
            (let error_message = retrieving @ retMsg response
             in (Inl (Exception error_message), emit (Error error_message) w1)))"

text \<open>
  The undecorated function (\<^verbatim>\<open>__wrapped__\<close>): the \<^verbatim>\<open>except Exception as e\<close>
  clause logs and re-raises the same exception.
\<close>

definition get_server_time_delay_wrapped :: "sid \<Rightarrow> world \<Rightarrow> (exn + int) \<times> world" where
  "get_server_time_delay_wrapped session w =
     (case delay_try session w of
        (Inl e, w1) \<Rightarrow> (Inl e, emit (Error (retrieving @ str_exn e)) w1)
      | (Inr delay, w1) \<Rightarrow> (Inr delay, w1))"

text \<open>
  \<^verbatim>\<open>@lru_cache(maxsize=1)\<close>: a call whose argument is in the table returns the stored
  result and runs nothing; otherwise the function runs, an exception passes through and
  stores nothing, and a result is stored as the most recent entry, the table keeping
  its \<open>maxsize\<close> most recent entries.
\<close>

definition maxsize :: nat where
  "maxsize = 1"

definition get_server_time_delay :: "sid \<Rightarrow> world \<Rightarrow> (exn + int) \<times> world" where
  "get_server_time_delay session w =
     (case map_of (cache w) session of
        Some delay \<Rightarrow>
          (Inr delay,
           w\<lparr>cache := (session, delay) # filter (\<lambda>p. fst p \<noteq> session) (cache w)\<rparr>)
      | None \<Rightarrow>
          (case get_server_time_delay_wrapped session w of
             (Inl e, w1) \<Rightarrow> (Inl e, w1)
           | (Inr delay, w1) \<Rightarrow>
               (Inr delay, w1\<lparr>cache := take maxsize ((session, delay) # cache w1)\<rparr>)))"

subsection \<open>generate\_req\_timestamp and generate\_timestamp\<close>

definition get_current_utc_milliseconds :: "world \<Rightarrow> int \<times> world" where
  "get_current_utc_milliseconds w =
     (let (epoch_time, w1) = time_time w in (py_int (epoch_time * 1000), w1))"

text \<open>
  Lines 54 to 56, reached with no session or after the inner \<^verbatim>\<open>except\<close>.
\<close>

definition use_utc :: "world \<Rightarrow> (exn + int) \<times> world" where
  "use_utc w =
     (let w1 = emit (Print ''No session available, using UTC time as req_timestamp'') w;
          (ms, w2) = get_current_utc_milliseconds w1
      in (Inr ms, w2))"

text \<open>
  The body of the outer \<^verbatim>\<open>try\<close>, lines 45 to 56. The argument is \<open>None\<close> for a
  session that is absent (\<^verbatim>\<open>None\<close>, or any falsy object) and \<open>Some s\<close> for a
  session object, which is truthy.
\<close>

definition req_try :: "sid option \<Rightarrow> world \<Rightarrow> (exn + int) \<times> world" where
  "req_try session w =
     (case session of
        Some s \<Rightarrow>
          (case get_server_time_delay s w of
             (Inr delay_nano, w1) \<Rightarrow>
               (let (t, w2) = time_time w1;
                    current_system_time_nano = py_int (t * 1000000000);
                    server_time_nano = current_system_time_nano + delay_nano
                in (Inr (server_time_nano div 1000000), w2))
           | (Inl e, w1) \<Rightarrow>
               use_utc
                 (emit (Error ''Failed to get server time delay, falling back to UTC time.'') w1))
      | None \<Rightarrow> use_utc w)"

definition generate_req_timestamp :: "sid option \<Rightarrow> world \<Rightarrow> (exn + int) \<times> world" where
  "generate_req_timestamp session w =
     (case req_try session w of
        (Inr v, w1) \<Rightarrow> (Inr v, w1)
      | (Inl e, w1) \<Rightarrow>
          (let (utc_milliseconds, w2) = get_current_utc_milliseconds w1;
               w3 = emit (Error (''Error generating req_timestamp: '' @ str_exn e
                      @ '', using UTC time: '' @ str_int utc_milliseconds)) w2;
               w4 = emit (Print (''Error generating req_timestamp: '' @ str_exn e)) w3
           in (Inr utc_milliseconds, w4)))"

definition generate_timestamp :: "world \<Rightarrow> int \<times> world" where
  "generate_timestamp w = (let (t, w1) = time_time w in (py_int (t * 10 ^ 3), w1))"

subsection \<open>identify\_ws\_method\<close>

text \<open>
  Strings are lists of characters with code points below 256. \<^verbatim>\<open>\s\<close> in a
  \<^verbatim>\<open>str\<close> pattern is Unicode white space; below 256 these are the code points
  9 to 13, 28 to 32, 133 and 160.
\<close>

definition is_space :: "char \<Rightarrow> bool" where
  "is_space c =
     (let n = (of_char c :: nat)
      in (9 \<le> n \<and> n \<le> 13) \<or> (28 \<le> n \<and> n \<le> 32) \<or> n = 133 \<or> n = 160)"

text \<open>The class \<^verbatim>\<open>[^/\s]\<close>.\<close>

definition host_char :: "char \<Rightarrow> bool" where
  "host_char c = (c \<noteq> CHR ''/'' \<and> \<not> is_space c)"

text \<open>
  \<^verbatim>\<open>([^/\s]+)(.*)\<close> at the start of a string: the greedy class takes the longest
  run of host characters, which must not be empty; \<^verbatim>\<open>.*\<close> then takes everything up
  to the first line feed (the dot matches any character but \<^verbatim>\<open>\n\<close>) and cannot
  fail, so the run is never shortened by backtracking.
\<close>

definition match_host_path :: "string \<Rightarrow> (string \<times> string) option" where
  "match_host_path s =
     (let host = takeWhile host_char s
      in if host = [] then None
         else Some (host, takeWhile (\<lambda>c. c \<noteq> CHR 0x0A) (dropWhile host_char s)))"

text \<open>
  \<^verbatim>\<open>re.compile("(wss://)?([^/\s]+)(.*)").match(s)\<close>: the optional group is tried
  first with \<^verbatim>\<open>wss://\<close>; when the rest then fails, the matcher backtracks and tries
  again with the group left out. The result holds groups 1, 2 and 3, or is \<open>None\<close>
  when \<^verbatim>\<open>match\<close> returns \<^verbatim>\<open>None\<close>.
\<close>

definition path_match :: "string \<Rightarrow> (string option \<times> string \<times> string) option" where
  "path_match s =
     (case (if take 6 s = ''wss://'' then match_host_path (drop 6 s) else None) of
        Some (host, rest) \<Rightarrow> Some (Some ''wss://'', host, rest)
      | None \<Rightarrow>
          (case match_host_path s of
             Some (host, rest) \<Rightarrow> Some (None, host, rest)
           | None \<Rightarrow> None))"

datatype ws_error = AttributeError

text \<open>
  \<^verbatim>\<open>path.match(url).group(3)\<close>: on \<^verbatim>\<open>None\<close> the attribute access raises
  \<^verbatim>\<open>AttributeError\<close>.
\<close>

definition group3 :: "string \<Rightarrow> ws_error + string" where
  "group3 url =
     (case path_match url of
        None \<Rightarrow> Inl AttributeError
      | Some (scheme, host, rest) \<Rightarrow> Inr rest)"

text \<open>
  The loop over \<^verbatim>\<open>wss_dictionary.items()\<close>; the dictionary is the list of its
  items in iteration order. Falling off the end of the function returns \<^verbatim>\<open>None\<close>.
\<close>

fun ws_items :: "string \<Rightarrow> (string \<times> 'h) list \<Rightarrow> ws_error + 'h option" where
  "ws_items input_wss_url_path [] = Inr None"
| "ws_items input_wss_url_path ((wss_url, function_call) # items) =
     (case group3 wss_url of
        Inl e \<Rightarrow> Inl e
      | Inr wss_url_path \<Rightarrow>
          if input_wss_url_path = wss_url_path then Inr (Some function_call)
          else ws_items input_wss_url_path items)"

definition identify_ws_method :: "string \<Rightarrow> (string \<times> 'h) list \<Rightarrow> ws_error + 'h option" where
  "identify_ws_method input_wss_url wss_dictionary =
     (case group3 input_wss_url of
        Inl e \<Rightarrow> Inl e
      | Inr input_wss_url_path \<Rightarrow> ws_items input_wss_url_path wss_dictionary)"

subsection \<open>find\_index\<close>

text \<open>
  A record is a dictionary, a partial map. The generator yields the index of each
  element that passes the test; \<^verbatim>\<open>j[key]\<close> is evaluated before \<^verbatim>\<open>target[key]\<close>
  and either raises \<^verbatim>\<open>KeyError\<close> on a missing key; \<^verbatim>\<open>next\<close> on the exhausted
  generator raises \<^verbatim>\<open>StopIteration\<close>.
\<close>

datatype 'k lookup_error = StopIteration | KeyError 'k

fun find_index_from ::
  "nat \<Rightarrow> ('k \<rightharpoonup> 'v) list \<Rightarrow> ('k \<rightharpoonup> 'v) \<Rightarrow> 'k \<Rightarrow> 'k lookup_error + nat" where
  "find_index_from i [] target key = Inl StopIteration"
| "find_index_from i (j # source) target key =
     (case j key of
        None \<Rightarrow> Inl (KeyError key)
      | Some a \<Rightarrow>
          (case target key of
             None \<Rightarrow> Inl (KeyError key)
           | Some b \<Rightarrow>
               if a = b then Inr i else find_index_from (Suc i) source target key))"

definition find_index ::
  "('k \<rightharpoonup> 'v) list \<Rightarrow> ('k \<rightharpoonup> 'v) \<Rightarrow> 'k \<Rightarrow> 'k lookup_error + nat" where
  "find_index source target key = find_index_from 0 source target key"

subsection \<open>are\_connections\_connected\<close>

text \<open>
  \<open>is_connected c\<close> is what \<^verbatim>\<open>c.is_connected()\<close> answers. The function returns its
  result together with the connections whose \<^verbatim>\<open>is_connected\<close> it called, in call
  order.
\<close>

fun are_connections_connected :: "('c \<Rightarrow> bool) \<Rightarrow> 'c list \<Rightarrow> bool \<times> 'c list" where
  "are_connections_connected is_connected [] = (True, [])"
| "are_connections_connected is_connected (connection # active_connections) =
     (if \<not> is_connected connection then (False, [connection])
      else (let (r, called) = are_connections_connected is_connected active_connections
            in (r, connection # called)))"

subsection \<open>Notions used in the statements\<close>

text \<open>
  A fetch succeeds when it returns a response with code 0; \<open>failure\<close> is the exception
  that \<open>get_server_time_delay\<close> raises on any other outcome.
\<close>

definition succeeds :: "outcome \<Rightarrow> bool" where
  "succeeds out = (case out of Returns r \<Rightarrow> retCode r = 0 | Raises e \<Rightarrow> False)"

definition failure :: "outcome \<Rightarrow> exn" where
  "failure out = (case out of Raises e \<Rightarrow> e | Returns r \<Rightarrow> Exception (retrieving @ retMsg r))"

text \<open>
  Every entry of the table comes from a fetch of its session that succeeded. The
  functions of the module keep this; \<open>reachable\<close> are the worlds they lead to from a
  world whose table is empty, the session's own \<^verbatim>\<open>get_server_time\<close> being callable
  by other code as well.
\<close>

definition cache_sound :: "world \<Rightarrow> bool" where
  "cache_sound w = (\<forall>p \<in> set (cache w). \<exists>n < fetches w (fst p). succeeds (server w (fst p) n))"

inductive reachable :: "world \<Rightarrow> bool" where
  fresh: "cache w = [] \<Longrightarrow> reachable w"
| after_fetch: "reachable w \<Longrightarrow> reachable (snd (get_server_time s w))"
| after_delay: "reachable w \<Longrightarrow> reachable (snd (get_server_time_delay s w))"
| after_req: "reachable w \<Longrightarrow> reachable (snd (generate_req_timestamp session w))"
| after_timestamp: "reachable w \<Longrightarrow> reachable (snd (generate_timestamp w))"

text \<open>
  Two worlds to compute in. In \<open>demo_world\<close> the clock reads 1700000000 s, then one
  second more at each reading, and every fetch answers code 0 with the server time
  1700000000500000000 ns. In \<open>down_world\<close> session 0 raises and every other session
  answers code 10002.
\<close>

definition demo_response :: response where
  "demo_response = \<lparr>retCode = 0, retMsg = ''OK'', timeNano = 1700000000500000000\<rparr>"

definition demo_world :: world where
  "demo_world =
     \<lparr>clock = (\<lambda>n. 1700000000 + real n), ticks = 0,
      server = (\<lambda>s n. Returns demo_response), fetches = (\<lambda>s. 0),
      cache = [], logged = []\<rparr>"

definition down_world :: world where
  "down_world =
     \<lparr>clock = (\<lambda>n. 1700000000 + real n / 2), ticks = 0,
      server = (\<lambda>s n. if s = 0 then Raises (PyExn ''ConnectionError'' ''unreachable'')
                       else Returns \<lparr>retCode = 10002, retMsg = ''invalid request'', timeNano = 0\<rparr>),
      fetches = (\<lambda>s. 0), cache = [], logged = []\<rparr>"

definition after_A :: world where
  "after_A = snd (get_server_time_delay 0 demo_world)"

definition after_AB :: world where
  "after_AB = snd (get_server_time_delay 1 after_A)"

definition down_later :: world where
  "down_later = snd (generate_timestamp down_world)"

text \<open>
  The decomposition \<^verbatim>\<open>(scheme)?(host)(path)\<close> read forwards: a URL put together from
  an optional \<^verbatim>\<open>wss://\<close>, a host (a non-empty run of characters other than
  \<^verbatim>\<open>/\<close> and white space) and a path (empty, or starting with a character that
  ends the host).
\<close>

definition wss_url :: "bool \<Rightarrow> string \<Rightarrow> string \<Rightarrow> string" where
  "wss_url scheme host path = (if scheme then ''wss://'' else []) @ host @ path"

definition is_host :: "string \<Rightarrow> bool" where
  "is_host h = (h \<noteq> [] \<and> list_all host_char h)"

definition is_path :: "string \<Rightarrow> bool" where
  "is_path p = (case p of [] \<Rightarrow> True | c # cs \<Rightarrow> \<not> host_char c)"

definition first_line :: "string \<Rightarrow> string" where
  "first_line p = takeWhile (\<lambda>c. c \<noteq> CHR 0x0A) p"

subsection \<open>Clock synchronisation\<close>

lemma delay_hit:
  "map_of (cache w) s = Some d \<Longrightarrow>
   get_server_time_delay s w =
     (Inr d, w\<lparr>cache := (s, d) # filter (\<lambda>p. fst p \<noteq> s) (cache w)\<rparr>)"
  by (simp add: get_server_time_delay_def)

lemma delay_miss_fail:
  assumes "map_of (cache w) s = None" and "\<not> succeeds (server w s (fetches w s))"
  shows "\<exists>w1. get_server_time_delay s w = (Inl (failure (server w s (fetches w s))), w1)
           \<and> cache w1 = cache w \<and> fetches w1 = (fetches w)(s := Suc (fetches w s))
           \<and> server w1 = server w \<and> clock w1 = clock w \<and> ticks w1 = ticks w"
  using assms
  by (auto simp: get_server_time_delay_def get_server_time_delay_wrapped_def delay_try_def
      get_server_time_def succeeds_def failure_def emit_def Let_def split: outcome.splits)

lemma delay_miss_ok:
  assumes "map_of (cache w) s = None" and "succeeds (server w s (fetches w s))"
  shows "\<exists>r w1. server w s (fetches w s) = Returns r \<and> get_server_time_delay s w =
             (Inr (timeNano r - py_int (clock w (ticks w) * 1000000000)), w1)
           \<and> cache w1 = [(s, timeNano r - py_int (clock w (ticks w) * 1000000000))]
           \<and> fetches w1 = (fetches w)(s := Suc (fetches w s))
           \<and> server w1 = server w \<and> clock w1 = clock w \<and> ticks w1 = Suc (ticks w)"
  using assms
  by (auto simp: get_server_time_delay_def get_server_time_delay_wrapped_def delay_try_def
      get_server_time_def emit_def time_time_def maxsize_def Let_def succeeds_def
      split: outcome.splits)

lemma cache_sound_fetch: "cache_sound w \<Longrightarrow> cache_sound (snd (get_server_time s w))"
  unfolding cache_sound_def get_server_time_def
  by (fastforce simp: less_Suc_eq)

lemma cache_sound_delay:
  assumes "cache_sound w"
  shows "cache_sound (snd (get_server_time_delay s w))"
proof (cases "map_of (cache w) s")
  case (Some d)
  then have "(s, d) \<in> set (cache w)"
    by (rule map_of_SomeD)
  with assms Some show ?thesis
    by (fastforce simp: delay_hit cache_sound_def)
next
  case None
  show ?thesis
  proof (cases "succeeds (server w s (fetches w s))")
    case True
    from delay_miss_ok [OF None True] assms True show ?thesis
      by (fastforce simp: cache_sound_def)
  next
    case False
    from delay_miss_fail [OF None False] assms show ?thesis
      by (fastforce simp: cache_sound_def less_Suc_eq)
  qed
qed

lemma cache_sound_cong:
  "cache w' = cache w \<Longrightarrow> fetches w' = fetches w \<Longrightarrow> server w' = server w \<Longrightarrow>
   cache_sound w' = cache_sound w"
  by (simp add: cache_sound_def)

lemma use_utc_eq:
  "use_utc w =
     (Inr (py_int (clock w (ticks w) * 1000)),
      w\<lparr>ticks := Suc (ticks w),
        logged := Print ''No session available, using UTC time as req_timestamp'' # logged w\<rparr>)"
  by (simp add: use_utc_def get_current_utc_milliseconds_def time_time_def emit_def)

lemma req_try_none: "req_try None w = use_utc w"
  by (simp add: req_try_def)

lemma req_try_ok:
  "get_server_time_delay s w = (Inr d, w1) \<Longrightarrow>
   req_try (Some s) w =
     (Inr ((py_int (clock w1 (ticks w1) * 1000000000) + d) div 1000000),
      w1\<lparr>ticks := Suc (ticks w1)\<rparr>)"
  by (simp add: req_try_def time_time_def)

lemma req_try_failed:
  "get_server_time_delay s w = (Inl e, w1) \<Longrightarrow>
   req_try (Some s) w =
     use_utc (emit (Error ''Failed to get server time delay, falling back to UTC time.'') w1)"
  by (simp add: req_try_def)

lemma req_try_returns: "\<exists>v w1. req_try session w = (Inr v, w1)"
proof (cases session)
  case None
  then show ?thesis by (simp add: req_try_none use_utc_eq)
next
  case (Some s)
  obtain r w1 where g: "get_server_time_delay s w = (r, w1)"
    by (cases "get_server_time_delay s w")
  show ?thesis
  proof (cases r)
    case (Inl e)
    with g Some show ?thesis by (simp add: req_try_failed use_utc_eq)
  next
    case (Inr d)
    with g Some show ?thesis by (simp add: req_try_ok)
  qed
qed

lemma generate_req_timestamp_eq: "generate_req_timestamp session w = req_try session w"
proof -
  obtain v w1 where "req_try session w = (Inr v, w1)"
    using req_try_returns by blast
  then show ?thesis by (simp add: generate_req_timestamp_def)
qed

lemma req_frame:
  "cache (snd (generate_req_timestamp (Some s) w)) = cache (snd (get_server_time_delay s w))
   \<and> fetches (snd (generate_req_timestamp (Some s) w)) = fetches (snd (get_server_time_delay s w))
   \<and> server (snd (generate_req_timestamp (Some s) w)) = server (snd (get_server_time_delay s w))"
proof -
  obtain r w1 where g: "get_server_time_delay s w = (r, w1)"
    by (cases "get_server_time_delay s w")
  show ?thesis
  proof (cases r)
    case (Inl e)
    with g show ?thesis
      by (simp add: generate_req_timestamp_eq req_try_failed use_utc_eq emit_def)
  next
    case (Inr d)
    with g show ?thesis
      by (simp add: generate_req_timestamp_eq req_try_ok)
  qed
qed

lemma cache_sound_req:
  assumes "cache_sound w"
  shows "cache_sound (snd (generate_req_timestamp session w))"
proof (cases session)
  case None
  have "cache_sound (snd (use_utc w)) = cache_sound w"
    by (rule cache_sound_cong) (simp_all add: use_utc_eq)
  with assms None show ?thesis
    by (simp add: generate_req_timestamp_eq req_try_none)
next
  case (Some s)
  have "cache_sound (snd (generate_req_timestamp (Some s) w))
        = cache_sound (snd (get_server_time_delay s w))"
    by (rule cache_sound_cong) (simp_all add: req_frame)
  with assms Some show ?thesis
    by (simp add: cache_sound_delay)
qed

lemma cache_sound_timestamp: "cache_sound w \<Longrightarrow> cache_sound (snd (generate_timestamp w))"
  by (simp add: cache_sound_def generate_timestamp_def time_time_def)

lemma reachable_cache_sound: "reachable w \<Longrightarrow> cache_sound w"
proof (induction rule: reachable.induct)
  case (fresh w)
  then show ?case by (simp add: cache_sound_def)
next
  case (after_fetch w s)
  then show ?case by (simp add: cache_sound_fetch)
next
  case (after_delay w s)
  then show ?case by (simp add: cache_sound_delay)
next
  case (after_req w session)
  then show ?case by (simp add: cache_sound_req)
next
  case (after_timestamp w)
  then show ?case by (simp add: cache_sound_timestamp)
qed

lemma never_cached:
  assumes "reachable w" and "\<forall>n. \<not> succeeds (server w s n)"
  shows "map_of (cache w) s = None"
proof (cases "map_of (cache w) s")
  case None
  then show ?thesis .
next
  case (Some d)
  then have "(s, d) \<in> set (cache w)"
    by (rule map_of_SomeD)
  with reachable_cache_sound [OF assms(1)] obtain n where "succeeds (server w s n)"
    by (fastforce simp: cache_sound_def)
  with assms(2) show ?thesis by simp
qed

lemma delay_cached_after:
  assumes "get_server_time_delay s w0 = (Inr d, w)"
  shows "map_of (cache w) s = Some d"
proof (cases "map_of (cache w0) s")
  case (Some d')
  with assms show ?thesis by (auto simp: delay_hit)
next
  case None
  show ?thesis
  proof (cases "succeeds (server w0 s (fetches w0 s))")
    case True
    from delay_miss_ok [OF None True] assms show ?thesis by auto
  next
    case False
    from delay_miss_fail [OF None False] assms show ?thesis by auto
  qed
qed

lemma bounded_delay:
  assumes "length (cache w) \<le> maxsize"
  shows "length (cache (snd (get_server_time_delay s w))) \<le> maxsize"
proof (cases "map_of (cache w) s")
  case (Some d)
  then have "(s, d) \<in> set (cache w)"
    by (rule map_of_SomeD)
  then have "length (filter (\<lambda>p. fst p \<noteq> s) (cache w)) < length (cache w)"
    by (intro length_filter_less [of "(s, d)"]) simp_all
  with assms Some show ?thesis
    by (simp add: delay_hit)
next
  case None
  show ?thesis
  proof (cases "succeeds (server w s (fetches w s))")
    case True
    from delay_miss_ok [OF None True] show ?thesis
      by (auto simp: maxsize_def)
  next
    case False
    from delay_miss_fail [OF None False] assms show ?thesis
      by auto
  qed
qed

lemma reachable_bounded: "reachable w \<Longrightarrow> length (cache w) \<le> maxsize"
proof (induction rule: reachable.induct)
  case (fresh w)
  then show ?case by simp
next
  case (after_fetch w s)
  then show ?case by (simp add: get_server_time_def)
next
  case (after_delay w s)
  then show ?case by (simp add: bounded_delay)
next
  case (after_req w session)
  show ?case
  proof (cases session)
    case None
    with after_req.IH show ?thesis
      by (simp add: generate_req_timestamp_eq req_try_none use_utc_eq)
  next
    case (Some s)
    with bounded_delay [OF after_req.IH, of s] show ?thesis
      by (simp add: req_frame)
  qed
next
  case (after_timestamp w)
  then show ?case by (simp add: generate_timestamp_def time_time_def)
qed

lemma single_slot:
  assumes "length (cache w) \<le> maxsize" and "get_server_time_delay s w = (Inr d, w1)"
  shows "cache w1 = [(s, d)]"
proof (cases "map_of (cache w) s")
  case (Some d')
  from assms(1) obtain p where c: "cache w = [p]"
    using Some by (cases "cache w") (auto simp: maxsize_def)
  with Some have "p = (s, d')"
    by (cases p) (auto split: if_splits)
  with c Some assms(2) show ?thesis
    by (auto simp: delay_hit)
next
  case None
  show ?thesis
  proof (cases "succeeds (server w s (fetches w s))")
    case True
    from delay_miss_ok [OF None True] assms(2) show ?thesis by auto
  next
    case False
    from delay_miss_fail [OF None False] assms(2) show ?thesis by auto
  qed
qed

lemma delay_server: "server (snd (get_server_time_delay s w)) = server w"
proof (cases "map_of (cache w) s")
  case (Some d)
  then show ?thesis by (simp add: delay_hit)
next
  case None
  show ?thesis
  proof (cases "succeeds (server w s (fetches w s))")
    case True
    from delay_miss_ok [OF None True] show ?thesis by auto
  next
    case False
    from delay_miss_fail [OF None False] show ?thesis by auto
  qed
qed

lemma delay_returns:
  assumes "succeeds (server w s (fetches w s))"
  shows "\<exists>d. fst (get_server_time_delay s w) = Inr d"
proof (cases "map_of (cache w) s")
  case (Some d)
  then show ?thesis by (simp add: delay_hit)
next
  case None
  from delay_miss_ok [OF None assms] show ?thesis by auto
qed

lemma evicted_refetch:
  assumes r: "reachable w" and ne: "B \<noteq> A"
    and okA: "\<forall>n. succeeds (server w A n)" and okB: "\<forall>n. succeeds (server w B n)"
  shows "map_of (cache (snd (get_server_time_delay B (snd (get_server_time_delay A w))))) A = None
    \<and> fetches (snd (get_server_time_delay A
          (snd (get_server_time_delay B (snd (get_server_time_delay A w)))))) A
       = fetches (snd (get_server_time_delay A w)) A + 1"
proof -
  define w1 where "w1 = snd (get_server_time_delay A w)"
  define w2 where "w2 = snd (get_server_time_delay B w1)"
  have sv1: "server w1 = server w"
    unfolding w1_def by (rule delay_server)
  from okA obtain dA where "fst (get_server_time_delay A w) = Inr dA"
    using delay_returns by blast
  then have gA: "get_server_time_delay A w = (Inr dA, w1)"
    unfolding w1_def by (cases "get_server_time_delay A w") simp
  have c1: "cache w1 = [(A, dA)]"
    using reachable_bounded [OF r] gA by (rule single_slot)
  with ne have missB: "map_of (cache w1) B = None" by simp
  from okB sv1 have "succeeds (server w1 B (fetches w1 B))" by simp
  from delay_miss_ok [OF missB this] obtain dB where
    c2: "cache w2 = [(B, dB)]" and f2: "fetches w2 = (fetches w1)(B := Suc (fetches w1 B))"
    and sv2: "server w2 = server w1"
    unfolding w2_def by auto
  from c2 ne have missA: "map_of (cache w2) A = None" by simp
  from okA sv1 sv2 have "succeeds (server w2 A (fetches w2 A))" by simp
  from delay_miss_ok [OF missA this]
  have "fetches (snd (get_server_time_delay A w2)) = (fetches w2)(A := Suc (fetches w2 A))"
    by auto
  with f2 ne have "fetches (snd (get_server_time_delay A w2)) A = fetches w1 A + 1"
    by simp
  with missA show ?thesis
    by (simp add: w1_def w2_def)
qed

lemma delay_repeat:
  assumes "\<forall>n. succeeds (server w s n)"
  shows "\<exists>d w1 w2. get_server_time_delay s w = (Inr d, w1)
           \<and> get_server_time_delay s w1 = (Inr d, w2)
           \<and> fetches w2 s = fetches w1 s
           \<and> fetches w2 s \<le> fetches w s + 1"
proof (cases "map_of (cache w) s")
  case (Some d)
  let ?w1 = "w\<lparr>cache := (s, d) # filter (\<lambda>p. fst p \<noteq> s) (cache w)\<rparr>"
  have 1: "get_server_time_delay s w = (Inr d, ?w1)"
    using Some by (rule delay_hit)
  have "map_of (cache ?w1) s = Some d" by simp
  then have 2: "get_server_time_delay s ?w1
      = (Inr d, ?w1\<lparr>cache := (s, d) # filter (\<lambda>p. fst p \<noteq> s) (cache ?w1)\<rparr>)"
    by (rule delay_hit)
  have "fetches ?w1 s \<le> fetches w s + 1" by simp
  with 1 2 show ?thesis by fastforce
next
  case None
  from assms have "succeeds (server w s (fetches w s))" by simp
  from delay_miss_ok [OF None this] obtain r :: response and w1 where
    1: "get_server_time_delay s w
        = (Inr (timeNano r - py_int (clock w (ticks w) * 1000000000)), w1)"
    and c: "cache w1 = [(s, timeNano r - py_int (clock w (ticks w) * 1000000000))]"
    and f: "fetches w1 = (fetches w)(s := Suc (fetches w s))"
    by auto
  let ?d = "timeNano r - py_int (clock w (ticks w) * 1000000000)"
  from c have "map_of (cache w1) s = Some ?d" by simp
  then have 2: "get_server_time_delay s w1
      = (Inr ?d, w1\<lparr>cache := (s, ?d) # filter (\<lambda>p. fst p \<noteq> s) (cache w1)\<rparr>)"
    by (rule delay_hit)
  from f have "fetches w1 s \<le> fetches w s + 1" by simp
  with 1 2 show ?thesis by fastforce
qed

text \<open>
  C1 (as amended). For a session whose fetches all answer with code 0,
  \<open>get_server_time_delay\<close> called twice in a row returns the same delay both times,
  the second call makes no fetch, and the two calls together make at most one. The
  table has one slot (\<open>maxsize = 1\<close>), so this is for two calls with no call for
  another session between them: a call for another such session \<open>B\<close> in between
  takes the slot, and the next call for the first session fetches again.
\<close>

theorem delay_twice:
  assumes "\<forall>n. succeeds (server w s n)"
  shows "(\<exists>d w1 w2. get_server_time_delay s w = (Inr d, w1)
           \<and> get_server_time_delay s w1 = (Inr d, w2)
           \<and> fetches w2 s = fetches w1 s
           \<and> fetches w2 s \<le> fetches w s + 1)
         \<and> (reachable w \<and> B \<noteq> s \<and> (\<forall>n. succeeds (server w B n)) \<longrightarrow>
             map_of (cache (snd (get_server_time_delay B (snd (get_server_time_delay s w))))) s
               = None
             \<and> fetches (snd (get_server_time_delay s
                   (snd (get_server_time_delay B (snd (get_server_time_delay s w)))))) s
                 = fetches (snd (get_server_time_delay s w)) s + 1)"
proof (rule conjI)
  show "\<exists>d w1 w2. get_server_time_delay s w = (Inr d, w1)
           \<and> get_server_time_delay s w1 = (Inr d, w2)
           \<and> fetches w2 s = fetches w1 s
           \<and> fetches w2 s \<le> fetches w s + 1"
    using assms by (rule delay_repeat)
next
  show "reachable w \<and> B \<noteq> s \<and> (\<forall>n. succeeds (server w B n)) \<longrightarrow>
      map_of (cache (snd (get_server_time_delay B (snd (get_server_time_delay s w))))) s = None
      \<and> fetches (snd (get_server_time_delay s
            (snd (get_server_time_delay B (snd (get_server_time_delay s w)))))) s
          = fetches (snd (get_server_time_delay s w)) s + 1"
    using assms evicted_refetch [of w B s] by blast
qed

lemma demo_world_fields:
  "clock demo_world n = 1700000000 + real n" "ticks demo_world = 0"
  "server demo_world s n = Returns demo_response" "fetches demo_world s = 0"
  "cache demo_world = []"
  by (simp_all add: demo_world_def)

lemma down_world_fields:
  "clock down_world n = 1700000000 + real n / 2" "ticks down_world = 0"
  "server down_world 0 n = Raises (PyExn ''ConnectionError'' ''unreachable'')"
  "server down_world (Suc s) n
     = Returns \<lparr>retCode = 10002, retMsg = ''invalid request'', timeNano = 0\<rparr>"
  "fetches down_world s = 0" "cache down_world = []"
  by (simp_all add: down_world_def)

lemma demo_A: "get_server_time_delay 0 demo_world = (Inr 500000000, after_A)"
  by (simp add: after_A_def get_server_time_delay_def get_server_time_delay_wrapped_def delay_try_def
      get_server_time_def time_time_def emit_def maxsize_def py_int_def demo_world_def
      demo_response_def)

lemma after_A_fields:
  "cache after_A = [(0, 500000000)]" "ticks after_A = 1" "fetches after_A = (\<lambda>s. 0)(0 := 1)"
  "clock after_A = clock demo_world" "server after_A = server demo_world"
  by (simp_all add: after_A_def get_server_time_delay_def get_server_time_delay_wrapped_def delay_try_def
      get_server_time_def time_time_def emit_def maxsize_def py_int_def demo_world_def
      demo_response_def)

lemmas run_defs =
  get_server_time_delay_def get_server_time_delay_wrapped_def delay_try_def
  get_server_time_def time_time_def emit_def maxsize_def py_int_def

lemma after_AB_fields:
  "cache after_AB = [(1, - 500000000)]" "ticks after_AB = 2"
  "fetches after_AB = (\<lambda>s. 0)(0 := 1, 1 := 1)"
  "clock after_AB = clock demo_world" "server after_AB = server demo_world"
  by (simp_all add: after_AB_def run_defs after_A_fields demo_world_def demo_response_def)

theorem delay_twice_witness:
  "fst (get_server_time_delay 0 demo_world) = Inr 500000000
   \<and> fst (get_server_time_delay 0 after_A) = Inr 500000000
   \<and> fetches (snd (get_server_time_delay 0 after_A)) 0 = 1
   \<and> reachable demo_world
   \<and> map_of (cache after_AB) 0 = None
   \<and> fetches (snd (get_server_time_delay 0 after_AB)) 0 = 2"
proof -
  have ok: "\<forall>n. succeeds (server demo_world s n)" for s
    by (simp add: demo_world_fields demo_response_def succeeds_def)
  have r: "reachable demo_world"
    by (rule reachable.fresh) (simp add: demo_world_fields)
  note both = delay_twice [OF ok, of 0 1]
  from both obtain d w1 w2 where
    1: "get_server_time_delay 0 demo_world = (Inr d, w1)"
    and 2: "get_server_time_delay 0 w1 = (Inr d, w2)"
    and 3: "fetches w2 0 = fetches w1 0"
    by blast
  from 1 have "d = 500000000" and "w1 = after_A"
    by (simp_all add: demo_A)
  with 1 2 3 have a: "fst (get_server_time_delay 0 demo_world) = Inr 500000000
      \<and> fst (get_server_time_delay 0 after_A) = Inr 500000000
      \<and> fetches (snd (get_server_time_delay 0 after_A)) 0 = 1"
    by (simp add: after_A_fields)
  from both r ok have "map_of (cache after_AB) 0 = None
      \<and> fetches (snd (get_server_time_delay 0 after_AB)) 0 = fetches after_A 0 + 1"
    by (simp add: after_AB_def after_A_def)
  then have b: "map_of (cache after_AB) 0 = None
      \<and> fetches (snd (get_server_time_delay 0 after_AB)) 0 = 2"
    by (simp add: after_A_fields)
  from a b r show ?thesis by simp
qed

theorem delay_evicted_counterexample:
  "fst (get_server_time_delay 0 demo_world) = Inr 500000000
   \<and> after_AB = snd (get_server_time_delay 1 (snd (get_server_time_delay 0 demo_world)))
   \<and> fst (get_server_time_delay 0 after_AB) = Inr (- 1500000000)
   \<and> fetches (snd (get_server_time_delay 0 after_AB)) 0 = 2"
proof -
  have "after_AB = snd (get_server_time_delay 1 (snd (get_server_time_delay 0 demo_world)))"
    by (simp only: after_AB_def after_A_def)
  moreover have "fst (get_server_time_delay 0 after_AB) = Inr (- 1500000000)"
    by (simp add: run_defs after_AB_fields demo_world_def demo_response_def)
  moreover have "fetches (snd (get_server_time_delay 0 after_AB)) 0 = 2"
    by (simp add: run_defs after_AB_fields demo_world_def demo_response_def)
  ultimately show ?thesis
    by (simp only: demo_A fst_conv simp_thms)
qed

text \<open>
  C3. For every argument and every world \<open>generate_req_timestamp\<close> returns an integer
  and raises nothing. Without a session the value is the local time in milliseconds;
  with one, it is the local time in nanoseconds plus the delay, in milliseconds, when
  the delay lookup succeeds, and the local time in milliseconds when the lookup raises.
\<close>

theorem req_timestamp_returns:
  "\<exists>v w1. generate_req_timestamp session w = (Inr v, w1)
     \<and> v = (case session of
              None \<Rightarrow> py_int (clock w (ticks w) * 1000)
            | Some s \<Rightarrow>
                (case get_server_time_delay s w of
                   (Inr d, w') \<Rightarrow> (py_int (clock w' (ticks w') * 1000000000) + d) div 1000000
                 | (Inl e, w') \<Rightarrow> py_int (clock w' (ticks w') * 1000)))"
proof (cases session)
  case None
  then show ?thesis
    by (simp add: generate_req_timestamp_eq req_try_none use_utc_eq)
next
  case (Some s)
  obtain r w' where g: "get_server_time_delay s w = (r, w')"
    by (cases "get_server_time_delay s w")
  show ?thesis
  proof (cases r)
    case (Inl e)
    with g Some show ?thesis
      by (simp add: generate_req_timestamp_eq req_try_failed use_utc_eq emit_def)
  next
    case (Inr d)
    with g Some show ?thesis
      by (simp add: generate_req_timestamp_eq req_try_ok)
  qed
qed

lemma down_later_fields:
  "cache down_later = []" "ticks down_later = 1" "fetches down_later = (\<lambda>s. 0)"
  "clock down_later = clock down_world" "server down_later = server down_world"
  by (simp_all add: down_later_def generate_timestamp_def time_time_def down_world_def)

lemma down_never: "\<not> succeeds (server down_world s n)"
  by (simp add: down_world_def succeeds_def)

theorem req_timestamp_returns_witness:
  "fst (generate_req_timestamp None demo_world) = Inr 1700000000000
   \<and> fst (generate_req_timestamp (Some 0) demo_world) = Inr 1700000001500
   \<and> fst (generate_req_timestamp (Some 0) down_later) = Inr 1700000000500"
proof -
  have a: "fst (generate_req_timestamp None demo_world) = Inr 1700000000000"
    using req_timestamp_returns [of None demo_world]
    by (auto simp: demo_world_fields py_int_def)
  have b: "fst (generate_req_timestamp (Some 0) demo_world) = Inr 1700000001500"
    using req_timestamp_returns [of "Some 0" demo_world]
    by (auto simp: demo_A after_A_fields demo_world_fields py_int_def)
  have "get_server_time_delay 0 down_later
        = (Inl (PyExn ''ConnectionError'' ''unreachable''), snd (get_server_time_delay 0 down_later))"
    by (simp add: run_defs down_later_fields down_world_fields)
  moreover have "ticks (snd (get_server_time_delay 0 down_later)) = 1"
    "clock (snd (get_server_time_delay 0 down_later)) = clock down_world"
    by (simp_all add: run_defs down_later_fields down_world_fields)
  ultimately have c: "fst (generate_req_timestamp (Some 0) down_later) = Inr 1700000000500"
    using req_timestamp_returns [of "Some 0" down_later]
    by (auto simp: down_world_fields py_int_def split: prod.splits)
  from a b c show ?thesis by simp
qed

text \<open>
  C4. For a session whose fetch never succeeds (it raises or answers with a code other
  than 0), in any world the functions of this module can reach,
  \<open>generate_req_timestamp\<close> returns without raising, and what it returns is what
  \<open>generate_timestamp\<close> returns on the same clock reading: the local time in
  milliseconds.
\<close>

theorem req_timestamp_fallback:
  assumes "reachable w" and "\<forall>n. \<not> succeeds (server w s n)"
  shows "fst (generate_req_timestamp (Some s) w) = Inr (fst (generate_timestamp w))
         \<and> fst (generate_timestamp w) = py_int (clock w (ticks w) * 1000)"
proof -
  have miss: "map_of (cache w) s = None"
    using assms by (rule never_cached)
  from assms(2) have "\<not> succeeds (server w s (fetches w s))" by simp
  from delay_miss_fail [OF miss this] obtain w1 where
    g: "get_server_time_delay s w = (Inl (failure (server w s (fetches w s))), w1)"
    and c: "clock w1 = clock w" and t: "ticks w1 = ticks w"
    by blast
  have "fst (generate_req_timestamp (Some s) w) = Inr (py_int (clock w (ticks w) * 1000))"
    by (simp add: generate_req_timestamp_eq req_try_failed [OF g] use_utc_eq emit_def c t)
  moreover have "fst (generate_timestamp w) = py_int (clock w (ticks w) * 1000)"
    by (simp add: generate_timestamp_def time_time_def)
  ultimately show ?thesis by simp
qed

theorem req_timestamp_fallback_witness:
  "reachable down_later
   \<and> fst (generate_req_timestamp (Some 0) down_later) = Inr 1700000000500
   \<and> fst (generate_timestamp down_later) = 1700000000500"
proof -
  have r: "reachable down_later"
    unfolding down_later_def
    by (rule reachable.after_timestamp, rule reachable.fresh) (simp add: down_world_fields)
  have n: "\<forall>n. \<not> succeeds (server down_later 0 n)"
    by (simp add: down_later_fields down_never)
  have "py_int (clock down_later (ticks down_later) * 1000) = 1700000000500"
    by (simp add: down_later_fields down_world_fields py_int_def)
  with req_timestamp_fallback [OF r n] r show ?thesis by simp
qed

text \<open>
  C5. For a session whose fetch never succeeds, in any world the functions of this
  module can reach, \<open>get_server_time_delay\<close> raises: the exception the fetch raised,
  or an \<^verbatim>\<open>Exception\<close> whose message ends with the \<^verbatim>\<open>retMsg\<close> of the response.
  The table is left as it was, with no entry for the session, and the next call for the
  session fetches again.
\<close>

theorem delay_failure_not_cached:
  assumes "reachable w" and "\<forall>n. \<not> succeeds (server w s n)"
  shows "\<exists>e w1 e2 w2.
           get_server_time_delay s w = (Inl e, w1)
           \<and> (\<forall>x. server w s (fetches w s) = Raises x \<longrightarrow> e = x)
           \<and> (\<forall>r. server w s (fetches w s) = Returns r \<longrightarrow>
                 e = Exception (''Error retrieving Bybit server time: '' @ retMsg r))
           \<and> cache w1 = cache w \<and> map_of (cache w1) s = None
           \<and> fetches w1 s = fetches w s + 1
           \<and> get_server_time_delay s w1 = (Inl e2, w2)
           \<and> fetches w2 s = fetches w s + 2"
proof -
  have miss: "map_of (cache w) s = None"
    using assms by (rule never_cached)
  from assms(2) have "\<not> succeeds (server w s (fetches w s))" by simp
  from delay_miss_fail [OF miss this] obtain w1 where
    g: "get_server_time_delay s w = (Inl (failure (server w s (fetches w s))), w1)"
    and c: "cache w1 = cache w" and f: "fetches w1 = (fetches w)(s := Suc (fetches w s))"
    and sv: "server w1 = server w"
    by blast
  from miss c have miss1: "map_of (cache w1) s = None" by simp
  from assms(2) sv have "\<not> succeeds (server w1 s (fetches w1 s))" by simp
  from delay_miss_fail [OF miss1 this] obtain w2 where
    g2: "get_server_time_delay s w1 = (Inl (failure (server w1 s (fetches w1 s))), w2)"
    and f2: "fetches w2 = (fetches w1)(s := Suc (fetches w1 s))"
    by blast
  have "\<forall>x. server w s (fetches w s) = Raises x \<longrightarrow> failure (server w s (fetches w s)) = x"
    by (simp add: failure_def)
  moreover have "\<forall>r. server w s (fetches w s) = Returns r \<longrightarrow>
      failure (server w s (fetches w s))
        = Exception (''Error retrieving Bybit server time: '' @ retMsg r)"
    by (simp add: failure_def retrieving_def)
  moreover from f f2 have "fetches w1 s = fetches w s + 1" "fetches w2 s = fetches w s + 2"
    by simp_all
  ultimately show ?thesis
    using g g2 c miss1 by blast
qed

theorem delay_failure_not_cached_witness:
  "reachable down_later
   \<and> fst (get_server_time_delay 1 down_later)
       = Inl (Exception ''Error retrieving Bybit server time: invalid request'')
   \<and> cache (snd (get_server_time_delay 1 down_later)) = []
   \<and> fetches (snd (get_server_time_delay 1 (snd (get_server_time_delay 1 down_later)))) 1 = 2"
proof -
  have r: "reachable down_later"
    unfolding down_later_def
    by (rule reachable.after_timestamp, rule reachable.fresh) (simp add: down_world_fields)
  have n: "\<forall>n. \<not> succeeds (server down_later 1 n)"
    by (simp add: down_later_fields down_never)
  have sv: "server down_later 1 (fetches down_later 1)
      = Returns \<lparr>retCode = 10002, retMsg = ''invalid request'', timeNano = 0\<rparr>"
    using down_world_fields(4) [of 0] by (simp add: down_later_fields)
  from delay_failure_not_cached [OF r n] obtain e w1 e2 w2 where
    g: "get_server_time_delay 1 down_later = (Inl e, w1)"
    and e: "\<forall>r. server down_later 1 (fetches down_later 1) = Returns r \<longrightarrow>
                 e = Exception (''Error retrieving Bybit server time: '' @ retMsg r)"
    and c: "cache w1 = cache down_later"
    and g2: "get_server_time_delay 1 w1 = (Inl e2, w2)"
    and f2: "fetches w2 1 = fetches down_later 1 + 2"
    by blast
  from e sv have "e = Exception ''Error retrieving Bybit server time: invalid request''"
    by simp
  with g g2 c f2 r show ?thesis
    by (simp add: down_later_fields)
qed

text \<open>
  C7. With a delay \<open>d\<close> in the table for the session (in particular right after a call
  of \<open>get_server_time_delay\<close> that returned \<open>d\<close>), \<open>generate_req_timestamp\<close>
  returns \<open>(T + d) div 1000000\<close>, where \<open>T\<close> is \<^verbatim>\<open>int(time.time() * 1e9)\<close> at the
  clock reading it takes. \<open>div\<close> on \<open>int\<close> rounds down, as \<^verbatim>\<open>//\<close> does in Python;
  on a sum that is not negative this is the quotient with its fraction cut off
  (\<open>floor_div_nonneg\<close> below).
\<close>

theorem req_timestamp_adjusted:
  "(map_of (cache w) s = Some d \<longrightarrow>
      fst (generate_req_timestamp (Some s) w)
        = Inr ((py_int (clock w (ticks w) * 1000000000) + d) div 1000000))
   \<and> (get_server_time_delay s w0 = (Inr d, w) \<longrightarrow>
      fst (generate_req_timestamp (Some s) w)
        = Inr ((py_int (clock w (ticks w) * 1000000000) + d) div 1000000))"
proof -
  have hit: "fst (generate_req_timestamp (Some s) w)
        = Inr ((py_int (clock w (ticks w) * 1000000000) + d) div 1000000)"
    if "map_of (cache w) s = Some d"
    by (simp add: generate_req_timestamp_eq req_try_ok [OF delay_hit [OF that]])
  show ?thesis
    using hit delay_cached_after by blast
qed

theorem req_timestamp_adjusted_witness:
  "timeNano demo_response = 1700000000500000000
   \<and> py_int (clock demo_world (ticks demo_world) * 1000000000) = 1700000000000000000
   \<and> get_server_time_delay 0 demo_world = (Inr 500000000, after_A)
   \<and> map_of (cache after_A) 0 = Some 500000000
   \<and> py_int (clock after_A (ticks after_A) * 1000000000) = 1700000001000000000
   \<and> fst (generate_req_timestamp (Some 0) after_A)
       = Inr ((1700000001000000000 + 500000000) div 1000000)
   \<and> fst (generate_req_timestamp (Some 0) after_A) = Inr 1700000001500"
proof -
  have t: "py_int (clock after_A (ticks after_A) * 1000000000) = 1700000001000000000"
    by (simp add: after_A_fields demo_world_fields py_int_def)
  have c: "map_of (cache after_A) 0 = Some 500000000"
    by (simp add: after_A_fields)
  from req_timestamp_adjusted [of after_A 0 500000000 demo_world] c demo_A t
  have "fst (generate_req_timestamp (Some 0) after_A)
       = Inr ((1700000001000000000 + 500000000) div 1000000)"
    by simp
  moreover have "py_int (clock demo_world (ticks demo_world) * 1000000000) = 1700000000000000000"
    by (simp add: demo_world_fields py_int_def)
  ultimately show ?thesis
    using c t by (simp add: demo_A demo_response_def)
qed

lemma floor_div_nonneg: "0 \<le> (a::int) \<Longrightarrow> a div 1000000 = sgn a * (\<bar>a\<bar> div 1000000)"
  by (cases "a = 0") simp_all

subsection \<open>Endpoint routing\<close>

text \<open>
  The matcher on the shapes that decide its branches: the scheme taken, no scheme, the
  scheme given up by backtracking, another scheme read as a host, and a path cut at a
  line feed.
\<close>

lemma path_match_examples:
  "path_match ''wss://stream.bybit.com/v5/public/spot''
     = Some (Some ''wss://'', ''stream.bybit.com'', ''/v5/public/spot'')"
  "path_match ''a.x/v5/public/spot'' = Some (None, ''a.x'', ''/v5/public/spot'')"
  "path_match ''wss://a.x'' = Some (Some ''wss://'', ''a.x'', [])"
  "path_match ''wss:///v5'' = Some (None, ''wss:'', ''///v5'')"
  "path_match ''wss://'' = Some (None, ''wss:'', ''//'')"
  "path_match ''https://a.x/v5'' = Some (None, ''https:'', ''//a.x/v5'')"
  "path_match (''a.x/p'' @ [CHR 0x0A] @ ''q'') = Some (None, ''a.x'', ''/p'')"
  "path_match ''/v5/public/spot'' = None"
  "path_match '' a'' = None"
  "path_match [] = None"
  by (simp_all add: path_match_def match_host_path_def host_char_def is_space_def)

lemma match_host_path_None: "match_host_path s = None \<longleftrightarrow> s = [] \<or> \<not> host_char (hd s)"
  by (simp add: match_host_path_def Let_def takeWhile_eq_Nil_iff)

lemma take6_wss: "take 6 s = ''wss://'' \<Longrightarrow> s = ''wss://'' @ drop 6 s"
  by (metis append_take_drop_id)

lemma host_char_wss:
  "host_char CHR ''w''" "host_char CHR ''s''" "host_char CHR '':''" "\<not> host_char CHR ''/''"
  by (simp_all add: host_char_def is_space_def)

lemma path_match_None: "path_match s = None \<longleftrightarrow> s = [] \<or> \<not> host_char (hd s)"
proof (cases "take 6 s = ''wss://''")
  case True
  then have "s = ''wss://'' @ drop 6 s" by (rule take6_wss)
  then have "s \<noteq> []" and "hd s = CHR ''w''"
    by (metis append_Cons list.distinct(1), metis append_Cons list.sel(1))
  then have "match_host_path s \<noteq> None"
    by (simp add: match_host_path_None host_char_wss)
  with \<open>s \<noteq> []\<close> \<open>hd s = CHR ''w''\<close> show ?thesis
    by (auto simp: path_match_def host_char_wss split: option.splits)
next
  case False
  then have "path_match s = None \<longleftrightarrow> match_host_path s = None"
    by (cases "match_host_path s") (auto simp: path_match_def)
  then show ?thesis
    by (simp add: match_host_path_None)
qed

lemma group3_raises:
  "group3 url = Inl AttributeError \<longleftrightarrow> url = [] \<or> hd url = CHR ''/'' \<or> is_space (hd url)"
proof -
  have "group3 url = Inl AttributeError \<longleftrightarrow> path_match url = None"
    by (auto simp: group3_def split: option.splits)
  then show ?thesis
    by (auto simp: path_match_None host_char_def)
qed

lemma match_host_path_append:
  assumes "is_host h" and "is_path p"
  shows "match_host_path (h @ p) = Some (h, first_line p)"
proof -
  from assms(1) have all: "\<And>x. x \<in> set h \<Longrightarrow> host_char x" and ne: "h \<noteq> []"
    by (simp_all add: is_host_def list_all_iff)
  from assms(2) have stop: "takeWhile host_char p = []" and rest: "dropWhile host_char p = p"
    by (cases p; simp add: is_path_def)+
  from all have "takeWhile host_char (h @ p) = h @ takeWhile host_char p"
    by (rule takeWhile_append2)
  moreover from all have "dropWhile host_char (h @ p) = dropWhile host_char p"
    by (rule dropWhile_append2)
  ultimately show ?thesis
    using ne stop rest by (simp add: match_host_path_def first_line_def)
qed

lemma host_of_wss_prefix:
  assumes "is_host h" and "is_path p" and "take 6 (h @ p) = ''wss://''"
  shows "h = ''wss:''"
proof -
  from assms(3) have eq: "h @ p = ''wss://'' @ drop 6 (h @ p)"
    by (rule take6_wss)
  have "takeWhile host_char (''wss://'' @ drop 6 (h @ p)) = ''wss:''"
    by (simp add: host_char_wss)
  with eq have "takeWhile host_char (h @ p) = ''wss:''"
    by simp
  moreover from match_host_path_append [OF assms(1,2)] have "takeWhile host_char (h @ p) = h"
    by (simp add: match_host_path_def Let_def split: if_splits)
  ultimately show ?thesis by simp
qed

lemma group3_wss_url:
  assumes "is_host h" and "is_path p" and "scheme \<or> h \<noteq> ''wss:''"
  shows "group3 (wss_url scheme h p) = Inr (first_line p)"
proof (cases scheme)
  case True
  then show ?thesis
    by (simp add: wss_url_def group3_def path_match_def match_host_path_append [OF assms(1,2)])
next
  case False
  with assms(3) have "h \<noteq> ''wss:''" by simp
  with host_of_wss_prefix [OF assms(1,2)] have "take 6 (h @ p) \<noteq> ''wss://''"
    by blast
  with False show ?thesis
    by (simp add: wss_url_def group3_def path_match_def match_host_path_append [OF assms(1,2)])
qed

lemma ws_items_none:
  "\<forall>kf \<in> set items. \<exists>q. group3 (fst kf) = Inr q \<and> q \<noteq> p \<Longrightarrow> ws_items p items = Inr None"
  by (induction items) auto

lemma ws_items_found:
  "\<forall>kf \<in> set pre. \<exists>q. group3 (fst kf) = Inr q \<and> q \<noteq> p \<Longrightarrow> group3 k = Inr p \<Longrightarrow>
   ws_items p (pre @ (k, f) # post) = Inr (Some f)"
  by (induction pre) auto

lemma ws_items_raises:
  "\<forall>kf \<in> set pre. group3 (fst kf) \<noteq> Inr p \<Longrightarrow> group3 k = Inl AttributeError \<Longrightarrow>
   ws_items p (pre @ (k, f) # post) = Inl AttributeError"
proof (induction pre)
  case Nil
  then show ?case by simp
next
  case (Cons kf pre)
  obtain k' f' where kf: "kf = (k', f')" by (cases kf)
  show ?case
  proof (cases "group3 k'")
    case (Inl e)
    then show ?thesis by (cases e) (simp add: kf)
  next
    case (Inr q)
    with Cons kf show ?thesis by auto
  qed
qed

text \<open>
  C2 (as amended). Two URLs built as \<open>[wss://] host path\<close> with the same path have the
  same PathComponent, whatever their hosts and whether or not \<^verbatim>\<open>wss://\<close> is
  written (a URL without scheme must not have the host text \<^verbatim>\<open>wss:\<close>). The
  component is the path up to its first line feed, the path itself when it has none.
  In a table where the keys before one of the two URLs match the pattern and have other
  PathComponents, resolving the other URL returns the handler bound to that key.
\<close>

theorem same_path_same_handler:
  assumes "is_host h1" and "is_host h2" and "is_path p"
    and "s1 \<or> h1 \<noteq> ''wss:''" and "s2 \<or> h2 \<noteq> ''wss:''"
    and "\<forall>kf \<in> set pre. \<exists>q. group3 (fst kf) = Inr q \<and> q \<noteq> first_line p"
  shows "group3 (wss_url s1 h1 p) = Inr (first_line p)
         \<and> group3 (wss_url s2 h2 p) = group3 (wss_url s1 h1 p)
         \<and> (CHR 0x0A \<notin> set p \<longrightarrow> first_line p = p)
         \<and> identify_ws_method (wss_url s1 h1 p) (pre @ (wss_url s2 h2 p, f) # post)
             = Inr (Some f)"
proof -
  have 1: "group3 (wss_url s1 h1 p) = Inr (first_line p)"
    using assms(1,3,4) by (rule group3_wss_url)
  have 2: "group3 (wss_url s2 h2 p) = Inr (first_line p)"
    using assms(2,3,5) by (rule group3_wss_url)
  have 3: "CHR 0x0A \<notin> set p \<longrightarrow> first_line p = p"
    by (auto simp: first_line_def takeWhile_eq_all_conv)
  have "ws_items (first_line p) (pre @ (wss_url s2 h2 p, f) # post) = Inr (Some f)"
    using assms(6) 2 by (rule ws_items_found)
  then have 4: "identify_ws_method (wss_url s1 h1 p) (pre @ (wss_url s2 h2 p, f) # post)
      = Inr (Some f)"
    by (simp add: identify_ws_method_def 1)
  from 1 2 3 4 show ?thesis by simp
qed

lemma group3_examples:
  "group3 ''wss://a.x/v5/public/spot'' = Inr ''/v5/public/spot''"
  "group3 ''wss://a.x/v5/public/linear'' = Inr ''/v5/public/linear''"
  "group3 ''wss://b.x/v5/public/linear'' = Inr ''/v5/public/linear''"
  "group3 ''https://a.x/v5/public/spot'' = Inr ''//a.x/v5/public/spot''"
  "group3 ''/v5/public/spot'' = Inl AttributeError"
  "group3 ''/bad'' = Inl AttributeError"
  by (simp_all add: group3_def path_match_def match_host_path_def host_char_def is_space_def)

theorem same_path_same_handler_witness:
  "identify_ws_method ''b.x/v5/public/linear''
     [(''wss://a.x/v5/public/spot'', 1), (''wss://a.x/v5/public/linear'', 2 :: nat)]
   = Inr (Some 2)
   \<and> group3 ''b.x/v5/public/linear'' = Inr ''/v5/public/linear''"
proof -
  have h: "is_host ''b.x''" "is_host ''a.x''"
    by (simp_all add: is_host_def host_char_def is_space_def)
  have p: "is_path ''/v5/public/linear''"
    by (simp add: is_path_def host_char_def)
  have s: "False \<or> ''b.x'' \<noteq> ''wss:''" "True \<or> ''a.x'' \<noteq> ''wss:''"
    by simp_all
  have t: "\<forall>kf \<in> set [(''wss://a.x/v5/public/spot'', 1 :: nat)].
             \<exists>q. group3 (fst kf) = Inr q \<and> q \<noteq> first_line ''/v5/public/linear''"
    by (simp add: group3_examples first_line_def)
  from same_path_same_handler [OF h p s t, of 2 "[]"] show ?thesis
    by (simp add: wss_url_def first_line_def)
qed

theorem other_scheme_counterexample:
  "group3 ''wss://a.x/v5/public/spot'' = Inr ''/v5/public/spot''
   \<and> group3 ''https://a.x/v5/public/spot'' = Inr ''//a.x/v5/public/spot''
   \<and> identify_ws_method ''https://a.x/v5/public/spot'' [(''wss://a.x/v5/public/spot'', 1 :: nat)]
       = Inr None"
  by (simp add: identify_ws_method_def group3_examples)

text \<open>
  C6 (as amended). When the pattern matches the target and every key of the table, and
  no key has the target's PathComponent, the loop runs through the whole table and the
  function returns \<^verbatim>\<open>None\<close>.
\<close>

theorem no_match_returns_none:
  assumes "group3 target = Inr p"
    and "\<forall>kf \<in> set table. \<exists>q. group3 (fst kf) = Inr q \<and> q \<noteq> p"
  shows "identify_ws_method target table = Inr None"
  using assms by (simp add: identify_ws_method_def ws_items_none)

theorem no_match_returns_none_witness:
  "identify_ws_method ''wss://b.x/v5/public/linear'' [(''wss://a.x/v5/public/spot'', 1 :: nat)]
   = Inr None"
proof -
  have "\<forall>kf \<in> set [(''wss://a.x/v5/public/spot'', 1 :: nat)].
          \<exists>q. group3 (fst kf) = Inr q \<and> q \<noteq> ''/v5/public/linear''"
    by (simp add: group3_examples)
  with group3_examples(3) show ?thesis
    by (rule no_match_returns_none)
qed

theorem path_only_target_counterexample:
  "identify_ws_method ''/v5/public/spot'' [(''wss://a.x/v5/public/linear'', 1 :: nat)]
   = Inl AttributeError"
  by (simp add: identify_ws_method_def group3_examples)

text \<open>
  C10 (as amended). The pattern fails on exactly the strings that are empty or start
  with \<^verbatim>\<open>/\<close> or white space. On such a target the function raises
  \<^verbatim>\<open>AttributeError\<close> whatever the table is; on such a key it raises when the loop
  reaches the key, that is when no key before it has the target's PathComponent.
\<close>

theorem unmatched_url_raises:
  "(group3 url = Inl AttributeError \<longleftrightarrow> url = [] \<or> hd url = CHR ''/'' \<or> is_space (hd url))
   \<and> (group3 target = Inl AttributeError \<longrightarrow>
        identify_ws_method target table = Inl AttributeError)
   \<and> (group3 k = Inl AttributeError \<and> (\<forall>kf \<in> set pre. group3 (fst kf) \<noteq> group3 target) \<longrightarrow>
        identify_ws_method target (pre @ (k, f) # post) = Inl AttributeError)"
proof -
  have a: "identify_ws_method target table = Inl AttributeError"
    if "group3 target = Inl AttributeError"
    using that by (simp add: identify_ws_method_def)
  have b: "identify_ws_method target (pre @ (k, f) # post) = Inl AttributeError"
    if k: "group3 k = Inl AttributeError"
      and pre: "\<forall>kf \<in> set pre. group3 (fst kf) \<noteq> group3 target"
  proof (cases "group3 target")
    case (Inl e)
    then show ?thesis by (cases e) (simp add: identify_ws_method_def)
  next
    case (Inr p)
    with pre have "\<forall>kf \<in> set pre. group3 (fst kf) \<noteq> Inr p" by simp
    then have "ws_items p (pre @ (k, f) # post) = Inl AttributeError"
      using k by (rule ws_items_raises)
    with Inr show ?thesis by (simp add: identify_ws_method_def)
  qed
  from a b group3_raises show ?thesis by blast
qed

theorem unmatched_url_raises_witness:
  "group3 ''/v5/public/spot'' = Inl AttributeError
   \<and> identify_ws_method ''/v5/public/spot'' [(''wss://a.x/v5/public/spot'', 1 :: nat)]
       = Inl AttributeError
   \<and> identify_ws_method ''wss://b.x/v5/public/linear''
       [(''wss://a.x/v5/public/spot'', 1 :: nat), (''/bad'', 2), (''wss://a.x/v5/public/linear'', 3)]
       = Inl AttributeError"
proof -
  have pre: "\<forall>kf \<in> set [(''wss://a.x/v5/public/spot'', 1 :: nat)].
      group3 (fst kf) \<noteq> group3 ''wss://b.x/v5/public/linear''"
    by (simp add: group3_examples)
  from unmatched_url_raises
    [where target = "''/v5/public/spot''" and table = "[(''wss://a.x/v5/public/spot'', 1 :: nat)]"
       and pre = "[]" and k = "''/bad''" and f = "1 :: nat" and post = "[]" and url = "[]"]
  have 1: "identify_ws_method ''/v5/public/spot'' [(''wss://a.x/v5/public/spot'', 1 :: nat)]
       = Inl AttributeError"
    by (simp add: group3_examples)
  from unmatched_url_raises
    [where target = "''wss://b.x/v5/public/linear''" and table = "[] :: (string \<times> nat) list"
       and pre = "[(''wss://a.x/v5/public/spot'', 1 :: nat)]" and k = "''/bad''" and f = "2 :: nat"
       and post = "[(''wss://a.x/v5/public/linear'', 3)]" and url = "[]"] pre
  have 2: "identify_ws_method ''wss://b.x/v5/public/linear''
       [(''wss://a.x/v5/public/spot'', 1 :: nat), (''/bad'', 2), (''wss://a.x/v5/public/linear'', 3)]
       = Inl AttributeError"
    by (simp add: group3_examples)
  from 1 2 show ?thesis by (simp add: group3_examples)
qed

theorem unreached_key_counterexample:
  "group3 ''/bad'' = Inl AttributeError
   \<and> identify_ws_method ''wss://b.x/v5/public/spot''
       [(''wss://a.x/v5/public/spot'', 1 :: nat), (''/bad'', 2)]
       = Inr (Some 1)"
  by (simp add: identify_ws_method_def group3_def path_match_def match_host_path_def
      host_char_def is_space_def)

subsection \<open>Index lookup\<close>

lemma find_index_from_first:
  "target key = Some b \<Longrightarrow> r key = Some b \<Longrightarrow>
   \<forall>j \<in> set pre. \<exists>a. j key = Some a \<and> a \<noteq> b \<Longrightarrow>
   find_index_from n (pre @ r # post) target key = Inr (n + length pre)"
  by (induction pre arbitrary: n) auto

lemma find_index_from_exhausted:
  "\<forall>j \<in> set source. \<exists>a b. j key = Some a \<and> target key = Some b \<and> a \<noteq> b \<Longrightarrow>
   find_index_from n source target key = Inl StopIteration"
  by (induction source arbitrary: n) auto

lemma find_index_from_sound:
  "find_index_from n source target key = Inr i \<Longrightarrow>
   \<exists>j \<in> set source. \<exists>v. j key = Some v \<and> target key = Some v"
  by (induction source arbitrary: n) (auto split: option.splits if_splits)

text \<open>
  C8 (as amended). When the target has a value at the key and the records before the
  first match all have one too, \<open>find_index\<close> returns the 0-based position of the
  first record whose value at the key equals the target's. When the target and every
  record have a value at the key and none matches (so also on the empty list), it
  raises \<^verbatim>\<open>StopIteration\<close>. Whenever no record matches, it raises and returns no
  value.
\<close>

theorem find_index_first:
  "(target key = Some b \<and> r key = Some b \<and> (\<forall>j \<in> set pre. \<exists>a. j key = Some a \<and> a \<noteq> b) \<longrightarrow>
      find_index (pre @ r # post) target key = Inr (length pre))
   \<and> ((\<forall>j \<in> set source. \<exists>a b. j key = Some a \<and> target key = Some b \<and> a \<noteq> b) \<longrightarrow>
      find_index source target key = Inl StopIteration)
   \<and> ((\<forall>j \<in> set source. \<forall>v. j key = Some v \<longrightarrow> target key \<noteq> Some v) \<longrightarrow>
      (\<exists>e. find_index source target key = Inl e))"
proof -
  have 1: "find_index (pre @ r # post) target key = Inr (length pre)"
    if "target key = Some b" "r key = Some b" "\<forall>j \<in> set pre. \<exists>a. j key = Some a \<and> a \<noteq> b"
    using that by (simp add: find_index_def find_index_from_first)
  have 2: "find_index source target key = Inl StopIteration"
    if "\<forall>j \<in> set source. \<exists>a b. j key = Some a \<and> target key = Some b \<and> a \<noteq> b"
    using that by (simp add: find_index_def find_index_from_exhausted)
  have 3: "\<exists>e. find_index source target key = Inl e"
    if none: "\<forall>j \<in> set source. \<forall>v. j key = Some v \<longrightarrow> target key \<noteq> Some v"
  proof (cases "find_index source target key")
    case (Inl e)
    then show ?thesis by blast
  next
    case (Inr i)
    then have "\<exists>j \<in> set source. \<exists>v. j key = Some v \<and> target key = Some v"
      unfolding find_index_def by (rule find_index_from_sound)
    with none show ?thesis by blast
  qed
  from 1 2 3 show ?thesis by blast
qed

theorem find_index_first_witness:
  "find_index [[''id'' \<mapsto> 5 :: nat], [''id'' \<mapsto> 7], [''id'' \<mapsto> 7]] [''id'' \<mapsto> 7] ''id'' = Inr 1
   \<and> find_index [[''id'' \<mapsto> 5 :: nat]] [''id'' \<mapsto> 7] ''id'' = Inl StopIteration
   \<and> find_index ([] :: (string \<rightharpoonup> nat) list) [''id'' \<mapsto> 7] ''id'' = Inl StopIteration
   \<and> (\<exists>e. find_index [[''name'' \<mapsto> 7 :: nat]] [''id'' \<mapsto> 7] ''id'' = Inl e)"
proof -
  note inst = find_index_first
    [where target = "[''id'' \<mapsto> 7 :: nat]" and key = "''id''" and b = 7
       and r = "[''id'' \<mapsto> 7]" and pre = "[[''id'' \<mapsto> 5]]" and post = "[[''id'' \<mapsto> 7]]"]
  have 1: "find_index [[''id'' \<mapsto> 5 :: nat], [''id'' \<mapsto> 7], [''id'' \<mapsto> 7]] [''id'' \<mapsto> 7] ''id''
      = Inr 1"
    using inst [where source = "[]"] by simp
  have 2: "find_index [[''id'' \<mapsto> 5 :: nat]] [''id'' \<mapsto> 7] ''id'' = Inl StopIteration"
    using inst [where source = "[[''id'' \<mapsto> 5]]"] by simp
  have 3: "find_index ([] :: (string \<rightharpoonup> nat) list) [''id'' \<mapsto> 7] ''id'' = Inl StopIteration"
    using inst [where source = "[]"] by simp
  have 4: "\<exists>e. find_index [[''name'' \<mapsto> 7 :: nat]] [''id'' \<mapsto> 7] ''id'' = Inl e"
    using inst [where source = "[[''name'' \<mapsto> 7]]"] by simp
  from 1 2 3 4 show ?thesis by simp
qed

theorem find_index_missing_key_counterexample:
  "([Map.empty, [''id'' \<mapsto> 7 :: nat]] ! 1) ''id'' = [''id'' \<mapsto> 7 :: nat] ''id''
   \<and> find_index [Map.empty, [''id'' \<mapsto> 7 :: nat]] [''id'' \<mapsto> 7] ''id'' = Inl (KeyError ''id'')"
  by (simp add: find_index_def)

subsection \<open>Connection liveness\<close>

lemma are_connections_connected_eq:
  "are_connections_connected is_connected cs
   = ((\<forall>c \<in> set cs. is_connected c),
      takeWhile is_connected cs @ take 1 (dropWhile is_connected cs))"
  by (induction cs) (auto split: prod.splits)

text \<open>
  C9. The result is true exactly when every connection of the sequence answers that it
  is connected, so it is true on the empty sequence and false as soon as one member is
  disconnected, wherever it stands. \<^verbatim>\<open>is_connected\<close> is called on the connections in
  sequence order, up to and including the first disconnected one, and on none after it.
\<close>

theorem all_connected:
  "fst (are_connections_connected is_connected cs) = (\<forall>c \<in> set cs. is_connected c)
   \<and> snd (are_connections_connected is_connected cs)
       = takeWhile is_connected cs @ take 1 (dropWhile is_connected cs)
   \<and> are_connections_connected is_connected [] = (True, [])
   \<and> (\<not> is_connected c \<longrightarrow>
        fst (are_connections_connected is_connected (pre @ c # post)) = False)
   \<and> ((\<forall>x \<in> set pre. is_connected x) \<and> \<not> is_connected c \<longrightarrow>
        are_connections_connected is_connected (pre @ c # post) = (False, pre @ [c]))"
proof -
  have "takeWhile is_connected (pre @ c # post) = pre"
    and "dropWhile is_connected (pre @ c # post) = c # post"
    if "\<forall>x \<in> set pre. is_connected x" "\<not> is_connected c"
    using that by (simp_all add: takeWhile_append2 dropWhile_append2)
  then show ?thesis
    by (auto simp: are_connections_connected_eq)
qed

theorem all_connected_witness:
  "are_connections_connected (\<lambda>c. c \<noteq> (3 :: nat)) [1, 2, 3, 4, 3] = (False, [1, 2, 3])
   \<and> fst (are_connections_connected (\<lambda>c. c \<noteq> (3 :: nat)) [1, 2, 4]) = True
   \<and> snd (are_connections_connected (\<lambda>c. c \<noteq> (3 :: nat)) [1, 2, 4]) = [1, 2, 4]"
proof -
  have 1: "are_connections_connected (\<lambda>c. c \<noteq> (3 :: nat)) [1, 2, 3, 4, 3] = (False, [1, 2, 3])"
    using all_connected
      [where is_connected = "\<lambda>c. c \<noteq> (3 :: nat)" and pre = "[1, 2]" and c = 3 and post = "[4, 3]"
         and cs = "[1, 2, 4]"]
    by simp
  have 2: "fst (are_connections_connected (\<lambda>c. c \<noteq> (3 :: nat)) [1, 2, 4]) = True
     \<and> snd (are_connections_connected (\<lambda>c. c \<noteq> (3 :: nat)) [1, 2, 4]) = [1, 2, 4]"
    using all_connected
      [where is_connected = "\<lambda>c. c \<noteq> (3 :: nat)" and pre = "[1, 2]" and c = 3 and post = "[4, 3]"
         and cs = "[1, 2, 4]"]
    by simp
  from 1 2 show ?thesis by simp
qed

end
